theory Spec2Isabelle
  imports Main "HOL-Library.Sublist"
begin

section \<open>The code-action adapter of atom-languageclient\<close>

text \<open>
  This theory embeds \<^verbatim>\<open>lib/adapters/code-action-adapter.js\<close>: the static methods
  \<^verbatim>\<open>canAdapt\<close> and \<^verbatim>\<open>getCodeActions\<close> of the class \<^verbatim>\<open>CodeActionAdapter\<close>, and the
  three methods of the action objects that \<^verbatim>\<open>getCodeActions\<close> builds.

  The adapter talks to three collaborators that are imported from other modules: the
  connection (\<^verbatim>\<open>codeAction\<close>, \<^verbatim>\<open>executeCommand\<close>), the linter adapter
  (\<^verbatim>\<open>getDiagnosticCode\<close>) and the module \<^verbatim>\<open>Convert\<close>. They are parameters of the
  model. Every call of a method of the connection or of the linter adapter is appended to
  a trace, so that "no call is issued" and "exactly one call is issued" are statements
  about that trace. The objects the adapter reads and writes (the array of diagnostics,
  the diagnostics in it, the converted diagnostics) live in a store of addressed cells,
  so that a write through one reference is seen through every alias of it.
\<close>

subsection \<open>JavaScript values\<close>

text \<open>
  The values a field typed loosely can hold (\<^verbatim>\<open>codeActionProvider\<close> as a server sends
  it, the \<^verbatim>\<open>arguments\<close> of a command). Numbers are integers here.
\<close>

datatype jsval =
    JUndefined
  | JNull
  | JBool bool
  | JNum int
  | JStr string
  | JArr "jsval list"
  | JObj "(string \<times> jsval) list"

text \<open>\<^verbatim>\<open>ToBoolean\<close>: what \<^verbatim>\<open>assert(value)\<close> and \<^verbatim>\<open>if (value)\<close> test.\<close>

fun truthy :: "jsval \<Rightarrow> bool" where
  "truthy JUndefined = False"
| "truthy JNull = False"
| "truthy (JBool b) = b"
| "truthy (JNum n) = (n \<noteq> 0)"
| "truthy (JStr s) = (s \<noteq> [])"
| "truthy (JArr xs) = True"
| "truthy (JObj fs) = True"

text \<open>\<^verbatim>\<open>v === true\<close>: strict equality with the boolean literal, no coercion.\<close>

fun strict_eq_true :: "jsval \<Rightarrow> bool" where
  "strict_eq_true (JBool b) = b"
| "strict_eq_true v = False"

subsection \<open>Errors\<close>

text \<open>
  \<^verbatim>\<open>AssertionError\<close> is what \<^verbatim>\<open>invariant\<close> (Node's \<^verbatim>\<open>assert\<close>) throws, with its message;
  \<^verbatim>\<open>RpcError\<close> is a rejection of a promise of the connection; \<^verbatim>\<open>TypeError\<close> is what
  JavaScript throws when a reference does not hold an object of the kind the code uses
  it as. A thrown error inside the \<^verbatim>\<open>async\<close> function rejects its promise: the
  function's result is \<open>Inl\<close> of the error.
\<close>

datatype error = AssertionError string | RpcError string | TypeError

definition invariant :: "jsval \<Rightarrow> string \<Rightarrow> error + unit" where
  "invariant v message = (if truthy v then Inr () else Inl (AssertionError message))"

subsection \<open>Host and protocol data\<close>

datatype atom_point = AtomPoint int int

datatype atom_range = AtomRange atom_point atom_point

datatype text_editor = TextEditor string

text \<open>The only field of the server's capabilities that the adapter reads.\<close>

record server_capabilities =
  codeActionProvider :: jsval

text \<open>
  \<^verbatim>\<open>atomIde$Diagnostic\<close>: the adapter reads \<^verbatim>\<open>range\<close> and \<^verbatim>\<open>text\<close> and tests both
  against \<^verbatim>\<open>null\<close>; \<open>None\<close> stands for \<^verbatim>\<open>null\<close> and \<^verbatim>\<open>undefined\<close>.
\<close>

record atom_diagnostic =
  diag_providerName :: string
  diag_type :: string
  diag_filePath :: string
  diag_text :: "string option"
  diag_range :: "atom_range option"

datatype diagnostic_code = CodeNum int | CodeStr string

record ls_position =
  pos_line :: int
  pos_character :: int

record ls_range =
  range_start :: ls_position
  range_end :: ls_position

record text_document_identifier =
  doc_uri :: string

text \<open>The protocol's \<^verbatim>\<open>Diagnostic\<close>; \<open>ls_code = None\<close> is an object with no \<^verbatim>\<open>code\<close>.\<close>

record ls_diagnostic =
  ls_range :: ls_range
  ls_severity :: "int option"
  ls_code :: "diagnostic_code option"
  ls_source :: "string option"
  ls_message :: string

record code_action_context =
  ctx_diagnostics :: "ls_diagnostic list"

record code_action_params =
  cap_textDocument :: text_document_identifier
  cap_range :: ls_range
  cap_context :: code_action_context

text \<open>The protocol's \<^verbatim>\<open>Command\<close>; \<^verbatim>\<open>arguments\<close> is optional.\<close>

record command =
  cmd_title :: string
  cmd_command :: string
  cmd_arguments :: "jsval list option"

record execute_command_params =
  ecp_command :: string
  ecp_arguments :: "jsval list option"

subsection \<open>The store and the trace\<close>

type_synonym addr = nat

datatype obj =
    NativeDiagnostic atom_diagnostic
  | LSDiagnostic ls_diagnostic
  | Array "addr list"

datatype event =
    GetDiagnosticCode text_editor atom_range string
  | CodeAction code_action_params
  | ExecuteCommand execute_command_params

text \<open>
  A JavaScript object is open: the assignment \<^verbatim>\<open>x.code = c\<close> succeeds on every object,
  whether or not its type declares a field \<^verbatim>\<open>code\<close>. A cell therefore holds an object
  together with the property \<^verbatim>\<open>code\<close> that an assignment has given it where its type
  has no such field (a native diagnostic, an array); \<open>None\<close> is an object that was never
  given one. For a protocol diagnostic the property is its field \<open>ls_code\<close>.
\<close>

record cell =
  cell_obj :: obj
  cell_code :: "diagnostic_code option"

definition new_cell :: "obj \<Rightarrow> cell" where
  "new_cell x = \<lparr>cell_obj = x, cell_code = None\<rparr>"

text \<open>
  The store is a list of cells, an address is an index into it, and a new object takes
  the next index. The trace lists the calls made on the collaborators, oldest first.
\<close>

record world =
  store :: "cell list"
  trace :: "event list"

definition lookup :: "addr \<Rightarrow> world \<Rightarrow> obj option" where
  "lookup a w = (if a < length (store w) then Some (cell_obj (store w ! a)) else None)"

definition alloc :: "obj \<Rightarrow> world \<Rightarrow> addr \<times> world" where
  "alloc x w = (length (store w), w\<lparr>store := store w @ [new_cell x]\<rparr>)"

definition emit :: "event \<Rightarrow> world \<Rightarrow> world" where
  "emit e w = w\<lparr>trace := trace w @ [e]\<rparr>"

text \<open>
  The assignment \<^verbatim>\<open>x.code = c\<close>, in place, on the object that the reference \<^verbatim>\<open>x\<close>
  points to, whatever kind of object it is: a protocol diagnostic gets its field set, any
  other object gets the property. (Every reference of the program points to an object;
  for an address beyond the store there is nothing to write.)
\<close>

definition assign_code :: "diagnostic_code \<Rightarrow> cell \<Rightarrow> cell" where
  "assign_code c x =
     (case cell_obj x of
        LSDiagnostic d \<Rightarrow> x\<lparr>cell_obj := LSDiagnostic (d\<lparr>ls_code := Some c\<rparr>)\<rparr>
      | _ \<Rightarrow> x\<lparr>cell_code := Some c\<rparr>)"

definition set_code :: "addr \<Rightarrow> diagnostic_code \<Rightarrow> world \<Rightarrow> world" where
  "set_code a c w =
     (if a < length (store w)
      then w\<lparr>store := (store w)[a := assign_code c (store w ! a)]\<rparr>
      else w)"

subsection \<open>The collaborators\<close>

text \<open>
  The linter adapter answers \<^verbatim>\<open>getDiagnosticCode(editor, range, text)\<close> with a code or
  with \<^verbatim>\<open>null\<close> (\<open>None\<close>). The connection answers a request with a list of commands or
  rejects; its answer may depend on everything it has been sent before. \<^verbatim>\<open>Convert\<close> is
  three functions; \<^verbatim>\<open>Convert.atomIdeDiagnosticToLSDiagnostic\<close> gives the fields of the
  protocol diagnostic it returns.
\<close>

type_synonym linter_adapter = "text_editor \<Rightarrow> atom_range \<Rightarrow> string \<Rightarrow> diagnostic_code option"

record connection =
  codeAction_response :: "event list \<Rightarrow> code_action_params \<Rightarrow> error + command list"
  executeCommand_response :: "event list \<Rightarrow> execute_command_params \<Rightarrow> error + unit"

record convert =
  editorToTextDocumentIdentifier :: "text_editor \<Rightarrow> text_document_identifier"
  atomRangeToLSRange :: "atom_range \<Rightarrow> ls_range"
  atomIdeDiagnosticToLSDiagnostic :: "atom_diagnostic \<Rightarrow> ls_diagnostic"

definition getDiagnosticCode ::
  "linter_adapter \<Rightarrow> text_editor \<Rightarrow> atom_range \<Rightarrow> string \<Rightarrow> world \<Rightarrow> diagnostic_code option \<times> world" where
  "getDiagnosticCode linterAdapter editor r t w =
     (linterAdapter editor r t, emit (GetDiagnosticCode editor r t) w)"

definition codeAction ::
  "connection \<Rightarrow> code_action_params \<Rightarrow> world \<Rightarrow> (error + command list) \<times> world" where
  "codeAction conn params w =
     (codeAction_response conn (trace w) params, emit (CodeAction params) w)"

definition executeCommand ::
  "connection \<Rightarrow> execute_command_params \<Rightarrow> world \<Rightarrow> (error + unit) \<times> world" where
  "executeCommand conn params w =
     (executeCommand_response conn (trace w) params, emit (ExecuteCommand params) w)"

subsection \<open>canAdapt\<close>

definition canAdapt :: "server_capabilities \<Rightarrow> bool" where
  "canAdapt serverCapabilities = strict_eq_true (codeActionProvider serverCapabilities)"

subsection \<open>The action objects\<close>

text \<open>
  An action is the object literal of three methods that \<^verbatim>\<open>getCodeActions\<close> returns for
  each command. Each method is a closure over \<^verbatim>\<open>connection\<close> and \<^verbatim>\<open>command\<close>; it takes
  the world and returns its result with the world it leaves. (\<^verbatim>\<open>apply\<close> is a keyword
  of Isabelle, hence \<open>apply_action\<close>.)
\<close>

record code_action =
  apply_action :: "world \<Rightarrow> (error + unit) \<times> world"
  getTitle :: "world \<Rightarrow> (error + string) \<times> world"
  dispose :: "world \<Rightarrow> (error + unit) \<times> world"

definition make_action :: "connection \<Rightarrow> command \<Rightarrow> code_action" where
  "make_action conn c =
     \<lparr> apply_action = (\<lambda>w.
         (case executeCommand conn
                 \<lparr>ecp_command = cmd_command c, ecp_arguments = cmd_arguments c\<rparr> w of
            (Inl e, w') \<Rightarrow> (Inl e, w')
          | (Inr u, w') \<Rightarrow> (Inr (), w'))),
       getTitle = (\<lambda>w. (Inr (cmd_title c), w)),
       dispose = (\<lambda>w. (Inr (), w)) \<rparr>"

subsection \<open>getCodeActions\<close>

text \<open>
  Modelled from the spec: \<^verbatim>\<open>Convert.atomIdeDiagnosticToLSDiagnostic\<close> (module
  \<^verbatim>\<open>lib/convert\<close>) is not among the sources. The specification has it build the wire
  form of a native diagnostic (section 3, "built by converting each native diagnostic";
  section 6, \<^verbatim>\<open>toWireDiagnostic(nativeDiagnostic) -> wireDiagnostic\<close>): the call
  returns a new object, whose fields are given by the parameter
  \<open>atomIdeDiagnosticToLSDiagnostic conv\<close>. The parameter is total: a conversion that
  throws is not modelled.
\<close>

definition toWireDiagnostic :: "convert \<Rightarrow> atom_diagnostic \<Rightarrow> world \<Rightarrow> addr \<times> world" where
  "toWireDiagnostic conv d w = alloc (LSDiagnostic (atomIdeDiagnosticToLSDiagnostic conv d)) w"

text \<open>
  The arrow function given to \<^verbatim>\<open>diagnostics.map\<close>. \<^verbatim>\<open>diagnostic\<close> is a reference to
  a native diagnostic, and the function returns the reference \<^verbatim>\<open>converted\<close>.
\<close>

definition convert_diagnostic ::
  "linter_adapter \<Rightarrow> convert \<Rightarrow> text_editor \<Rightarrow> addr \<Rightarrow> world \<Rightarrow> (error + addr) \<times> world" where
  "convert_diagnostic linterAdapter conv editor diagnostic w =
     (case lookup diagnostic w of
        Some (NativeDiagnostic d) \<Rightarrow>
          (case toWireDiagnostic conv d w of
             (converted, w1) \<Rightarrow>
               (case (diag_range d, diag_text d) of
                  (Some r, Some t) \<Rightarrow>
                    (case getDiagnosticCode linterAdapter editor r t w1 of
                       (Some code, w2) \<Rightarrow> (Inr converted, set_code converted code w2)
                     | (None, w2) \<Rightarrow> (Inr converted, w2))
                | _ \<Rightarrow> (Inr converted, w1)))
      | _ \<Rightarrow> (Inl TypeError, w))"

text \<open>
  \<^verbatim>\<open>Array.prototype.map\<close>: the callback runs on the elements in index order, the first
  error ends the loop, and the results go into a new array.
\<close>

fun map_elements ::
  "(addr \<Rightarrow> world \<Rightarrow> (error + addr) \<times> world) \<Rightarrow> addr list \<Rightarrow> world \<Rightarrow> (error + addr list) \<times> world" where
  "map_elements f [] w = (Inr [], w)"
| "map_elements f (x # xs) w =
     (case f x w of
        (Inl e, w1) \<Rightarrow> (Inl e, w1)
      | (Inr y, w1) \<Rightarrow>
          (case map_elements f xs w1 of
             (Inl e, w2) \<Rightarrow> (Inl e, w2)
           | (Inr ys, w2) \<Rightarrow> (Inr (y # ys), w2)))"

definition array_map ::
  "(addr \<Rightarrow> world \<Rightarrow> (error + addr) \<times> world) \<Rightarrow> addr \<Rightarrow> world \<Rightarrow> (error + addr) \<times> world" where
  "array_map f arr w =
     (case lookup arr w of
        Some (Array xs) \<Rightarrow>
          (case map_elements f xs w of
             (Inl e, w1) \<Rightarrow> (Inl e, w1)
           | (Inr ys, w1) \<Rightarrow> (case alloc (Array ys) w1 of (a, w2) \<Rightarrow> (Inr a, w2)))
      | _ \<Rightarrow> (Inl TypeError, w))"

text \<open>
  What the connection puts on the wire for the field \<^verbatim>\<open>context.diagnostics\<close>: the
  protocol diagnostics that the array holds when the request is sent.
\<close>

fun read_diagnostics :: "addr list \<Rightarrow> world \<Rightarrow> ls_diagnostic list option" where
  "read_diagnostics [] w = Some []"
| "read_diagnostics (a # as) w =
     (case lookup a w of
        Some (LSDiagnostic d) \<Rightarrow>
          (case read_diagnostics as w of Some ds \<Rightarrow> Some (d # ds) | None \<Rightarrow> None)
      | _ \<Rightarrow> None)"

definition read_diagnostic_array :: "addr \<Rightarrow> world \<Rightarrow> ls_diagnostic list option" where
  "read_diagnostic_array arr w =
     (case lookup arr w of Some (Array as) \<Rightarrow> read_diagnostics as w | _ \<Rightarrow> None)"

definition getCodeActions ::
  "connection \<Rightarrow> server_capabilities \<Rightarrow> linter_adapter option \<Rightarrow> convert \<Rightarrow>
   text_editor \<Rightarrow> atom_range \<Rightarrow> addr \<Rightarrow> world \<Rightarrow> (error + code_action list) \<times> world" where
  "getCodeActions conn serverCapabilities linterAdapter conv editor rng diagnostics w =
     (case linterAdapter of
        None \<Rightarrow> (Inr [], w)
      | Some la \<Rightarrow>
          (case invariant (codeActionProvider serverCapabilities)
                  ''Must have the textDocument/codeAction capability'' of
             Inl e \<Rightarrow> (Inl e, w)
           | Inr u \<Rightarrow>
               (case array_map (convert_diagnostic la conv editor) diagnostics w of
                  (Inl e, w1) \<Rightarrow> (Inl e, w1)
                | (Inr mapped, w1) \<Rightarrow>
                    (case read_diagnostic_array mapped w1 of
                       None \<Rightarrow> (Inl TypeError, w1)
                     | Some wire \<Rightarrow>
                         (case codeAction conn
                                 \<lparr> cap_textDocument = editorToTextDocumentIdentifier conv editor,
                                   cap_range = atomRangeToLSRange conv rng,
                                   cap_context = \<lparr>ctx_diagnostics = wire\<rparr> \<rparr> w1 of
                            (Inl e, w2) \<Rightarrow> (Inl e, w2)
                          | (Inr commands, w2) \<Rightarrow>
                              (Inr (map (make_action conn) commands), w2))))))"

subsection \<open>Observations used to state the properties\<close>

text \<open>The calls made on the collaborators between an earlier world and a later one.\<close>

definition issued :: "world \<Rightarrow> world \<Rightarrow> event list" where
  "issued w w' = drop (length (trace w)) (trace w')"

text \<open>Calling \<^verbatim>\<open>apply()\<close> on the same action \<open>n\<close> times in a row, whatever each call returns.\<close>

fun invoke_times :: "nat \<Rightarrow> code_action \<Rightarrow> world \<Rightarrow> world" where
  "invoke_times 0 a w = w"
| "invoke_times (Suc n) a w = invoke_times n a (snd (apply_action a w))"

text \<open>
  The specification's reading of the request, stated on values: the cache queries that
  one native diagnostic causes (section 4.2, step 2), its wire form with the reconciled
  code (steps 1 and 2), and the request made of them (step 3). The theorems below compare
  what the code does on the store with these.
\<close>

definition cache_queries :: "text_editor \<Rightarrow> atom_diagnostic \<Rightarrow> event list" where
  "cache_queries editor d =
     (case (diag_range d, diag_text d) of
        (Some r, Some t) \<Rightarrow> [GetDiagnosticCode editor r t]
      | _ \<Rightarrow> [])"

definition reconciled ::
  "linter_adapter \<Rightarrow> convert \<Rightarrow> text_editor \<Rightarrow> atom_diagnostic \<Rightarrow> ls_diagnostic" where
  "reconciled la conv editor d =
     (case (diag_range d, diag_text d) of
        (Some r, Some t) \<Rightarrow>
          (case la editor r t of
             Some c \<Rightarrow> (atomIdeDiagnosticToLSDiagnostic conv d)\<lparr>ls_code := Some c\<rparr>
           | None \<Rightarrow> atomIdeDiagnosticToLSDiagnostic conv d)
      | _ \<Rightarrow> atomIdeDiagnosticToLSDiagnostic conv d)"

definition expected_request ::
  "linter_adapter \<Rightarrow> convert \<Rightarrow> text_editor \<Rightarrow> atom_range \<Rightarrow> atom_diagnostic list \<Rightarrow>
   code_action_params" where
  "expected_request la conv editor rng ds =
     \<lparr> cap_textDocument = editorToTextDocumentIdentifier conv editor,
       cap_range = atomRangeToLSRange conv rng,
       cap_context = \<lparr>ctx_diagnostics = map (reconciled la conv editor) ds\<rparr> \<rparr>"

subsection \<open>A concrete session\<close>

text \<open>
  One editor with three diagnostics: the first has a range and the text \<^verbatim>\<open>T\<close>, for
  which the cache holds the code \<^verbatim>\<open>E042\<close>; the second has no text; the third has a
  range and a text the cache knows nothing about. The server answers every code-action
  request with the commands \<^verbatim>\<open>fix.a\<close> and \<^verbatim>\<open>fix.b\<close>.
\<close>

definition demo_editor :: text_editor where
  "demo_editor = TextEditor ''/tmp/a.js''"

definition demo_range :: atom_range where
  "demo_range = AtomRange (AtomPoint 1 0) (AtomPoint 1 5)"

definition demo_d0 :: atom_diagnostic where
  "demo_d0 = \<lparr> diag_providerName = ''lint'', diag_type = ''Error'', diag_filePath = ''/tmp/a.js'',
               diag_text = Some ''T'', diag_range = Some (AtomRange (AtomPoint 1 0) (AtomPoint 1 5)) \<rparr>"

definition demo_d1 :: atom_diagnostic where
  "demo_d1 = \<lparr> diag_providerName = ''lint'', diag_type = ''Warning'', diag_filePath = ''/tmp/a.js'',
               diag_text = None, diag_range = Some (AtomRange (AtomPoint 2 0) (AtomPoint 2 3)) \<rparr>"

definition demo_d2 :: atom_diagnostic where
  "demo_d2 = \<lparr> diag_providerName = ''lint'', diag_type = ''Info'', diag_filePath = ''/tmp/a.js'',
               diag_text = Some ''U'', diag_range = Some (AtomRange (AtomPoint 3 0) (AtomPoint 3 1)) \<rparr>"

definition demo_linter :: linter_adapter where
  "demo_linter editor r t = (if t = ''T'' then Some (CodeStr ''E042'') else None)"

fun demo_ls_range :: "atom_range \<Rightarrow> ls_range" where
  "demo_ls_range (AtomRange (AtomPoint r1 c1) (AtomPoint r2 c2)) =
     \<lparr> range_start = \<lparr>pos_line = r1, pos_character = c1\<rparr>,
       range_end = \<lparr>pos_line = r2, pos_character = c2\<rparr> \<rparr>"

fun demo_identifier :: "text_editor \<Rightarrow> text_document_identifier" where
  "demo_identifier (TextEditor path) = \<lparr>doc_uri = ''file://'' @ path\<rparr>"

definition demo_ls_diagnostic :: "atom_diagnostic \<Rightarrow> ls_diagnostic" where
  "demo_ls_diagnostic d =
     \<lparr> ls_range = demo_ls_range (case diag_range d of Some r \<Rightarrow> r
                                   | None \<Rightarrow> AtomRange (AtomPoint 0 0) (AtomPoint 0 0)),
       ls_severity = Some 1,
       ls_code = None,
       ls_source = Some (diag_providerName d),
       ls_message = (case diag_text d of Some t \<Rightarrow> t | None \<Rightarrow> []) \<rparr>"

definition demo_convert :: convert where
  "demo_convert =
     \<lparr> editorToTextDocumentIdentifier = demo_identifier,
       atomRangeToLSRange = demo_ls_range,
       atomIdeDiagnosticToLSDiagnostic = demo_ls_diagnostic \<rparr>"

definition demo_fix_a :: command where
  "demo_fix_a = \<lparr>cmd_title = ''Fix A'', cmd_command = ''fix.a'', cmd_arguments = Some [JNum 1]\<rparr>"

definition demo_fix_b :: command where
  "demo_fix_b = \<lparr>cmd_title = ''Fix B'', cmd_command = ''fix.b'', cmd_arguments = Some []\<rparr>"

definition demo_connection :: connection where
  "demo_connection =
     \<lparr> codeAction_response = (\<lambda>h p. Inr [demo_fix_a, demo_fix_b]),
       executeCommand_response = (\<lambda>h p. Inr ()) \<rparr>"

text \<open>The three diagnostics at the addresses 0, 1 and 2, and the array of them at 3.\<close>

definition demo_world :: world where
  "demo_world =
     \<lparr> store = [new_cell (NativeDiagnostic demo_d0), new_cell (NativeDiagnostic demo_d1),
                new_cell (NativeDiagnostic demo_d2), new_cell (Array [0, 1, 2])],
       trace = [] \<rparr>"

text \<open>
  Capabilities as a server of a later protocol version sends them (an options object),
  and capabilities with the feature switched off.
\<close>

definition demo_options :: server_capabilities where
  "demo_options =
     \<lparr>codeActionProvider = JObj [(''codeActionKinds'', JArr [JStr ''quickfix''])]\<rparr>"

definition demo_enabled :: server_capabilities where
  "demo_enabled = \<lparr>codeActionProvider = JBool True\<rparr>"

definition demo_disabled :: server_capabilities where
  "demo_disabled = \<lparr>codeActionProvider = JBool False\<rparr>"

section \<open>Properties\<close>

subsection \<open>Auxiliary facts\<close>

lemma lookup_grown:
  "lookup a w = Some x \<Longrightarrow> lookup a (w\<lparr>store := store w @ ys, trace := t\<rparr>) = Some x"
  by (simp add: lookup_def nth_append split: if_splits)

lemma convert_diagnostic_native:
  assumes "lookup a w = Some (NativeDiagnostic d)"
  shows "convert_diagnostic la conv ed a w =
           (Inr (length (store w)),
            w\<lparr>store := store w @ [new_cell (LSDiagnostic (reconciled la conv ed d))],
              trace := trace w @ cache_queries ed d\<rparr>)"
  using assms
  by (simp add: convert_diagnostic_def toWireDiagnostic_def alloc_def getDiagnosticCode_def
      emit_def set_code_def assign_code_def new_cell_def
      lookup_def reconciled_def cache_queries_def split: option.splits)

lemma map_elements_natives:
  "map (\<lambda>a. lookup a w) as = map (\<lambda>d. Some (NativeDiagnostic d)) ds \<Longrightarrow>
   map_elements (convert_diagnostic la conv ed) as w =
     (Inr [length (store w) ..< length (store w) + length as],
      w\<lparr>store := store w @ map (\<lambda>d. new_cell (LSDiagnostic (reconciled la conv ed d))) ds,
        trace := trace w @ concat (map (cache_queries ed) ds)\<rparr>)"
proof (induction as arbitrary: ds w)
  case Nil
  then show ?case by simp
next
  case (Cons a as)
  from Cons.prems obtain d ds' where ds: "ds = d # ds'"
    and a: "lookup a w = Some (NativeDiagnostic d)"
    and rest: "map (\<lambda>a. lookup a w) as = map (\<lambda>d. Some (NativeDiagnostic d)) ds'"
    by (cases ds) auto
  let ?w1 = "w\<lparr>store := store w @ [new_cell (LSDiagnostic (reconciled la conv ed d))],
              trace := trace w @ cache_queries ed d\<rparr>"
  have "map (\<lambda>a. lookup a ?w1) as = map (\<lambda>a. lookup a w) as"
  proof (rule map_cong [OF refl])
    fix b assume "b \<in> set as"
    then have "lookup b w \<in> set (map (\<lambda>d. Some (NativeDiagnostic d)) ds')"
      using rest by (metis image_eqI set_map)
    then obtain x where "lookup b w = Some x" by auto
    then show "lookup b ?w1 = lookup b w" by (simp add: lookup_grown)
  qed
  with rest have rest1: "map (\<lambda>a. lookup a ?w1) as = map (\<lambda>d. Some (NativeDiagnostic d)) ds'"
    by simp
  have upt: "[length (store w) ..< length (store w) + length (a # as)] =
             length (store w) # [length (store ?w1) ..< length (store ?w1) + length as]"
    by (subst upt_rec) simp
  show ?case
    unfolding upt
    by (simp add: convert_diagnostic_native [OF a] Cons.IH [OF rest1] ds del: upt_Suc)
qed

lemma read_diagnostics_fresh:
  "store w = pre @ map (\<lambda>l. new_cell (LSDiagnostic l)) ls @ post \<Longrightarrow>
   read_diagnostics [length pre ..< length pre + length ls] w = Some ls"
proof (induction ls arbitrary: pre)
  case Nil
  then show ?case by simp
next
  case (Cons l ls)
  have here: "lookup (length pre) w = Some (LSDiagnostic l)"
    using Cons.prems by (simp add: lookup_def nth_append new_cell_def)
  have "store w = (pre @ [new_cell (LSDiagnostic l)]) @ map (\<lambda>l. new_cell (LSDiagnostic l)) ls @ post"
    using Cons.prems by simp
  from Cons.IH [OF this]
  have "read_diagnostics [Suc (length pre) ..< Suc (length pre) + length ls] w = Some ls"
    by simp
  then show ?case
    by (simp add: upt_conv_Cons here del: upt_Suc)
qed

text \<open>
  The whole run of \<^verbatim>\<open>getCodeActions\<close> on a well-formed input: the array holds
  references to native diagnostics, a linter adapter is given and the capability is
  truthy.
\<close>

lemma getCodeActions_run:
  assumes arr: "lookup diagnostics w = Some (Array as)"
    and nat: "map (\<lambda>a. lookup a w) as = map (\<lambda>d. Some (NativeDiagnostic d)) ds"
    and cap: "truthy (codeActionProvider caps)"
  shows "getCodeActions conn caps (Some la) conv ed rng diagnostics w =
     ((case codeAction_response conn (trace w @ concat (map (cache_queries ed) ds))
              (expected_request la conv ed rng ds) of
         Inl e \<Rightarrow> Inl e
       | Inr commands \<Rightarrow> Inr (map (make_action conn) commands)),
      w\<lparr>store := store w @ map (\<lambda>d. new_cell (LSDiagnostic (reconciled la conv ed d))) ds
                  @ [new_cell (Array [length (store w) ..< length (store w) + length as])],
        trace := trace w @ concat (map (cache_queries ed) ds)
                  @ [CodeAction (expected_request la conv ed rng ds)]\<rparr>)"
proof -
  let ?ls = "map (reconciled la conv ed) ds"
  let ?w1 = "w\<lparr>store := store w @ map (\<lambda>d. new_cell (LSDiagnostic (reconciled la conv ed d))) ds,
              trace := trace w @ concat (map (cache_queries ed) ds)\<rparr>"
  let ?new = "[length (store w) ..< length (store w) + length as]"
  let ?w2 = "?w1\<lparr>store := store ?w1 @ [new_cell (Array ?new)]\<rparr>"
  have len: "length as = length ds"
    using nat by (metis length_map)
  have m: "array_map (convert_diagnostic la conv ed) diagnostics w =
             (Inr (length (store ?w1)), ?w2)"
    by (simp add: array_map_def arr map_elements_natives [OF nat] alloc_def)
  have "store ?w2 = store w @ map (\<lambda>l. new_cell (LSDiagnostic l)) ?ls @ [new_cell (Array ?new)]"
    by (simp add: comp_def)
  from read_diagnostics_fresh [OF this]
  have rd: "read_diagnostics ?new ?w2 = Some ?ls"
    by (simp add: len)
  have r: "read_diagnostic_array (length (store ?w1)) ?w2 = Some ?ls"
    using rd by (simp add: read_diagnostic_array_def lookup_def nth_append new_cell_def)
  show ?thesis
    apply (simp only: getCodeActions_def invariant_def cap if_True option.case sum.case m r
        prod.case)
    apply (simp add: codeAction_def emit_def expected_request_def split: sum.splits)
    done
qed

lemma issued_run:
  assumes arr: "lookup diagnostics w = Some (Array as)"
    and nat: "map (\<lambda>a. lookup a w) as = map (\<lambda>d. Some (NativeDiagnostic d)) ds"
    and cap: "truthy (codeActionProvider caps)"
  shows "issued w (snd (getCodeActions conn caps (Some la) conv ed rng diagnostics w)) =
           concat (map (cache_queries ed) ds) @ [CodeAction (expected_request la conv ed rng ds)]"
  by (simp add: getCodeActions_run [OF arr nat cap] issued_def)

lemma getCodeActions_answer:
  assumes arr: "lookup diagnostics w = Some (Array as)"
    and nat: "map (\<lambda>a. lookup a w) as = map (\<lambda>d. Some (NativeDiagnostic d)) ds"
    and cap: "truthy (codeActionProvider caps)"
    and resp: "codeAction_response conn (trace w @ concat (map (cache_queries ed) ds))
                 (expected_request la conv ed rng ds) = Inr commands"
  shows "fst (getCodeActions conn caps (Some la) conv ed rng diagnostics w) =
           Inr (map (make_action conn) commands)"
  by (simp add: getCodeActions_run [OF arr nat cap] resp)

text \<open>Every action that \<^verbatim>\<open>getCodeActions\<close> returns is the object literal of some command.\<close>

lemma getCodeActions_actions:
  "fst (getCodeActions conn caps la conv ed rng diagnostics w) = Inr actions \<Longrightarrow>
   \<exists>commands. actions = map (make_action conn) commands"
  by (auto simp add: getCodeActions_def split: option.splits sum.splits prod.splits)

lemma reconciled_other_fields:
  "(reconciled la conv ed d)\<lparr>ls_code := ls_code (atomIdeDiagnosticToLSDiagnostic conv d)\<rparr> =
     atomIdeDiagnosticToLSDiagnostic conv d"
  by (simp add: reconciled_def split: option.splits)

lemma apply_make_action:
  "apply_action (make_action conn c) v =
     ((case executeCommand_response conn (trace v)
              \<lparr>ecp_command = cmd_command c, ecp_arguments = cmd_arguments c\<rparr> of
         Inl e \<Rightarrow> Inl e
       | Inr u \<Rightarrow> Inr ()),
      v\<lparr>trace := trace v @
          [ExecuteCommand \<lparr>ecp_command = cmd_command c, ecp_arguments = cmd_arguments c\<rparr>]\<rparr>)"
  by (simp add: make_action_def executeCommand_def emit_def split: sum.splits)

lemma invoke_times_make_action:
  "invoke_times n (make_action conn c) v =
     v\<lparr>trace := trace v @ replicate n
          (ExecuteCommand \<lparr>ecp_command = cmd_command c, ecp_arguments = cmd_arguments c\<rparr>)\<rparr>"
proof (induction n arbitrary: v)
  case 0
  then show ?case by simp
next
  case (Suc n)
  then show ?case
    by (simp add: apply_make_action replicate_app_Cons_same)
qed

text \<open>
  Frame: each step only appends cells to the store. The one write in place,
  \<^verbatim>\<open>converted.code = code\<close>, goes to the cell that the same step has appended.
\<close>

lemma convert_diagnostic_frame:
  "prefix (store w) (store (snd (convert_diagnostic la conv ed a w)))"
  by (simp add: convert_diagnostic_def toWireDiagnostic_def alloc_def getDiagnosticCode_def
      emit_def set_code_def assign_code_def new_cell_def
      lookup_def split: option.splits obj.splits)

lemma map_elements_frame:
  assumes f: "\<And>a w. prefix (store w) (store (snd (f a w)))"
  shows "prefix (store w) (store (snd (map_elements f as w)))"
proof (induction as arbitrary: w)
  case Nil
  then show ?case by simp
next
  case (Cons a as)
  show ?case
  proof (cases "f a w")
    case (Pair r w1)
    have p1: "prefix (store w) (store w1)"
      using f [of w a] Pair by simp
    show ?thesis
    proof (cases r)
      case (Inl e)
      with Pair p1 show ?thesis by simp
    next
      case (Inr y)
      have "prefix (store w1) (store (snd (map_elements f as w1)))"
        by (rule Cons.IH)
      with p1 have p2: "prefix (store w) (store (snd (map_elements f as w1)))"
        by (rule prefix_order.trans)
      show ?thesis
      proof (cases "map_elements f as w1")
        case rest: (Pair r2 w2)
        with p2 Pair Inr show ?thesis
          by (cases r2) simp_all
      qed
    qed
  qed
qed

lemma array_map_frame:
  assumes f: "\<And>a w. prefix (store w) (store (snd (f a w)))"
  shows "prefix (store w) (store (snd (array_map f arr w)))"
proof (cases "lookup arr w")
  case None
  then show ?thesis by (simp add: array_map_def)
next
  case (Some x)
  show ?thesis
  proof (cases x)
    case (Array xs)
    have p: "prefix (store w) (store (snd (map_elements f xs w)))"
      by (rule map_elements_frame [OF f])
    show ?thesis
    proof (cases "map_elements f xs w")
      case (Pair r w1)
      with p Some Array show ?thesis
        by (cases r) (simp_all add: array_map_def alloc_def prefix_order.trans)
    qed
  qed (simp_all add: array_map_def Some)
qed

text \<open>The concrete session is well-formed.\<close>

lemma demo_array: "lookup 3 demo_world = Some (Array [0, 1, 2])"
  by (simp add: lookup_def demo_world_def new_cell_def)

lemma demo_natives:
  "map (\<lambda>a. lookup a demo_world) [0, 1, 2] =
   map (\<lambda>d. Some (NativeDiagnostic d)) [demo_d0, demo_d1, demo_d2]"
  by (simp add: lookup_def demo_world_def new_cell_def)

lemma demo_capability: "truthy (codeActionProvider demo_enabled)"
  by (simp add: demo_enabled_def)

lemma demo_queries:
  "cache_queries demo_editor demo_d0 =
     [GetDiagnosticCode demo_editor (AtomRange (AtomPoint 1 0) (AtomPoint 1 5)) ''T'']"
  "cache_queries demo_editor demo_d1 = []"
  "cache_queries demo_editor demo_d2 =
     [GetDiagnosticCode demo_editor (AtomRange (AtomPoint 3 0) (AtomPoint 3 1)) ''U'']"
  by (simp_all add: cache_queries_def demo_d0_def demo_d1_def demo_d2_def)

lemma demo_reconciled:
  "reconciled demo_linter demo_convert demo_editor demo_d0 =
     (demo_ls_diagnostic demo_d0)\<lparr>ls_code := Some (CodeStr ''E042'')\<rparr>"
  "reconciled demo_linter demo_convert demo_editor demo_d1 = demo_ls_diagnostic demo_d1"
  "reconciled demo_linter demo_convert demo_editor demo_d2 = demo_ls_diagnostic demo_d2"
  by (simp_all add: reconciled_def demo_linter_def demo_convert_def demo_d0_def demo_d1_def
      demo_d2_def)

lemma demo_response:
  "codeAction_response demo_connection h p = Inr [demo_fix_a, demo_fix_b]"
  by (simp add: demo_connection_def)

subsection \<open>The capability gate\<close>

text \<open>
  C2. \<^verbatim>\<open>canAdapt\<close> answers true exactly for the capabilities whose
  \<^verbatim>\<open>codeActionProvider\<close> is the boolean \<^verbatim>\<open>true\<close>: an absent field, \<^verbatim>\<open>null\<close>,
  \<^verbatim>\<open>false\<close>, a number, a string, an array and an options object all give false. It is
  a function of the capabilities alone: it takes no world and returns none.
\<close>

theorem canAdapt_iff_true:
  "canAdapt c = (codeActionProvider c = JBool True)
   \<and> canAdapt \<lparr>codeActionProvider = JBool True\<rparr>
   \<and> \<not> canAdapt \<lparr>codeActionProvider = JUndefined\<rparr>
   \<and> \<not> canAdapt \<lparr>codeActionProvider = JNull\<rparr>
   \<and> \<not> canAdapt \<lparr>codeActionProvider = JBool False\<rparr>
   \<and> \<not> canAdapt \<lparr>codeActionProvider = JNum n\<rparr>
   \<and> \<not> canAdapt \<lparr>codeActionProvider = JStr s\<rparr>
   \<and> \<not> canAdapt \<lparr>codeActionProvider = JArr xs\<rparr>
   \<and> \<not> canAdapt \<lparr>codeActionProvider = JObj fs\<rparr>"
  by (cases "codeActionProvider c") (simp_all add: canAdapt_def)

subsection \<open>The absent cache\<close>

text \<open>
  C3. With no linter adapter (\<^verbatim>\<open>null\<close> or \<^verbatim>\<open>undefined\<close>), \<^verbatim>\<open>getCodeActions\<close>
  resolves to the empty list and leaves the world as it found it, whatever the other
  arguments are: no request goes to the connection and the cache is not queried.
\<close>

theorem getCodeActions_without_cache:
  "getCodeActions conn caps None conv ed rng diagnostics w = (Inr [], w)
   \<and> issued w (snd (getCodeActions conn caps None conv ed rng diagnostics w)) = []"
  by (simp add: getCodeActions_def issued_def)

text \<open>
  C9. The test for the absent linter adapter comes before the assertion on the
  capability: with no linter adapter the result is the empty list for all capabilities,
  it is never an assertion failure, and it does not depend on the capabilities at all
  (any two give the same result), also for those that would fail the assertion.
\<close>

theorem absent_cache_before_capability:
  "fst (getCodeActions conn caps None conv ed rng diagnostics w) = Inr []
   \<and> fst (getCodeActions conn caps None conv ed rng diagnostics w) \<noteq> Inl (AssertionError m)
   \<and> getCodeActions conn caps None conv ed rng diagnostics w =
       getCodeActions conn caps' None conv ed rng diagnostics w
   \<and> fst (getCodeActions conn demo_disabled None conv ed rng diagnostics w) = Inr []
   \<and> fst (getCodeActions conn demo_disabled (Some la) conv ed rng diagnostics w) =
       Inl (AssertionError ''Must have the textDocument/codeAction capability'')"
  by (simp add: getCodeActions_def invariant_def demo_disabled_def)

subsection \<open>The capability assertion\<close>

text \<open>
  C1, as the code has it. \<^verbatim>\<open>invariant(serverCapabilities.codeActionProvider, ...)\<close>
  tests whether the value is truthy, not whether it is the boolean \<^verbatim>\<open>true\<close>. With a
  linter adapter given and a falsy \<^verbatim>\<open>codeActionProvider\<close> (absent, \<^verbatim>\<open>null\<close>,
  \<^verbatim>\<open>false\<close>, \<^verbatim>\<open>0\<close>, the empty string), \<^verbatim>\<open>getCodeActions\<close> fails with the assertion
  error and leaves the world as it found it: the cache is not queried and no request goes
  to the connection.
\<close>

theorem getCodeActions_asserts_capability:
  assumes "\<not> truthy (codeActionProvider caps)"
  shows "getCodeActions conn caps (Some la) conv ed rng diagnostics w =
           (Inl (AssertionError ''Must have the textDocument/codeAction capability''), w)
         \<and> issued w (snd (getCodeActions conn caps (Some la) conv ed rng diagnostics w)) = []"
  using assms by (simp add: getCodeActions_def invariant_def issued_def)

theorem getCodeActions_asserts_capability_witness:
  "\<not> truthy (codeActionProvider demo_disabled)
   \<and> getCodeActions demo_connection demo_disabled (Some demo_linter) demo_convert demo_editor
        demo_range 3 demo_world =
        (Inl (AssertionError ''Must have the textDocument/codeAction capability''), demo_world)
   \<and> issued demo_world (snd (getCodeActions demo_connection demo_disabled (Some demo_linter)
        demo_convert demo_editor demo_range 3 demo_world)) = []"
proof -
  have h: "\<not> truthy (codeActionProvider demo_disabled)"
    by (simp add: demo_disabled_def)
  from getCodeActions_asserts_capability [OF h, of demo_connection demo_linter demo_convert
      demo_editor demo_range 3 demo_world] h
  show ?thesis by (simp add: issued_def)
qed

text \<open>
  C1 as stated fails: an options object is not the boolean \<^verbatim>\<open>true\<close>, yet it is truthy.
  With it the assertion passes, the cache is queried, the request is sent and the
  actions come back.
\<close>

theorem options_object_passes_assertion:
  "codeActionProvider demo_options \<noteq> JBool True
   \<and> fst (getCodeActions demo_connection demo_options (Some demo_linter) demo_convert
        demo_editor demo_range 3 demo_world) =
       Inr [make_action demo_connection demo_fix_a, make_action demo_connection demo_fix_b]
   \<and> issued demo_world (snd (getCodeActions demo_connection demo_options (Some demo_linter)
        demo_convert demo_editor demo_range 3 demo_world)) =
       [GetDiagnosticCode demo_editor (AtomRange (AtomPoint 1 0) (AtomPoint 1 5)) ''T'',
        GetDiagnosticCode demo_editor (AtomRange (AtomPoint 3 0) (AtomPoint 3 1)) ''U'',
        CodeAction (expected_request demo_linter demo_convert demo_editor demo_range
          [demo_d0, demo_d1, demo_d2])]"
proof -
  have cap: "truthy (codeActionProvider demo_options)"
    by (simp add: demo_options_def)
  have "codeActionProvider demo_options \<noteq> JBool True"
    by (simp add: demo_options_def)
  moreover have "fst (getCodeActions demo_connection demo_options (Some demo_linter)
        demo_convert demo_editor demo_range 3 demo_world) =
       Inr [make_action demo_connection demo_fix_a, make_action demo_connection demo_fix_b]"
    by (simp add: getCodeActions_answer [OF demo_array demo_natives cap demo_response])
  moreover have "issued demo_world (snd (getCodeActions demo_connection demo_options
        (Some demo_linter) demo_convert demo_editor demo_range 3 demo_world)) =
       [GetDiagnosticCode demo_editor (AtomRange (AtomPoint 1 0) (AtomPoint 1 5)) ''T'',
        GetDiagnosticCode demo_editor (AtomRange (AtomPoint 3 0) (AtomPoint 3 1)) ''U'',
        CodeAction (expected_request demo_linter demo_convert demo_editor demo_range
          [demo_d0, demo_d1, demo_d2])]"
    by (simp add: issued_run [OF demo_array demo_natives cap] demo_queries)
  ultimately show ?thesis by blast
qed

subsection \<open>The request\<close>

text \<open>
  C4. On a list of native diagnostics, with a linter adapter and the capability, the
  call issues exactly one \<^verbatim>\<open>codeAction\<close> request, after the cache queries. The list
  \<^verbatim>\<open>context.diagnostics\<close> of that request is as long as the input list, and its entry
  at each index \<open>i\<close> is the wire form of the native diagnostic at index \<open>i\<close>: the
  conversion of that diagnostic, with the reconciled code where there is one, and
  equal to the conversion in every field but \<^verbatim>\<open>code\<close>.
\<close>

theorem wire_diagnostics_in_input_order:
  assumes arr: "lookup diagnostics w = Some (Array as)"
    and nat: "map (\<lambda>a. lookup a w) as = map (\<lambda>d. Some (NativeDiagnostic d)) ds"
    and cap: "truthy (codeActionProvider caps)"
  shows "\<exists>req.
           issued w (snd (getCodeActions conn caps (Some la) conv ed rng diagnostics w)) =
             concat (map (cache_queries ed) ds) @ [CodeAction req]
         \<and> length (ctx_diagnostics (cap_context req)) = length as
         \<and> length (ctx_diagnostics (cap_context req)) = length ds
         \<and> (\<forall>i<length ds.
               ctx_diagnostics (cap_context req) ! i = reconciled la conv ed (ds ! i)
             \<and> (ctx_diagnostics (cap_context req) ! i)
                  \<lparr>ls_code := ls_code (atomIdeDiagnosticToLSDiagnostic conv (ds ! i))\<rparr> =
                 atomIdeDiagnosticToLSDiagnostic conv (ds ! i))"
proof -
  have len: "length as = length ds"
    using nat by (metis length_map)
  show ?thesis
  proof (intro exI conjI)
    show "issued w (snd (getCodeActions conn caps (Some la) conv ed rng diagnostics w)) =
            concat (map (cache_queries ed) ds) @ [CodeAction (expected_request la conv ed rng ds)]"
      by (rule issued_run [OF arr nat cap])
  qed (simp_all add: expected_request_def len reconciled_other_fields)
qed

theorem wire_diagnostics_in_input_order_witness:
  "lookup 3 demo_world = Some (Array [0, 1, 2])
   \<and> map (\<lambda>a. lookup a demo_world) [0, 1, 2] =
       map (\<lambda>d. Some (NativeDiagnostic d)) [demo_d0, demo_d1, demo_d2]
   \<and> truthy (codeActionProvider demo_enabled)
   \<and> (\<exists>req.
         issued demo_world (snd (getCodeActions demo_connection demo_enabled (Some demo_linter)
           demo_convert demo_editor demo_range 3 demo_world)) =
           [GetDiagnosticCode demo_editor (AtomRange (AtomPoint 1 0) (AtomPoint 1 5)) ''T'',
            GetDiagnosticCode demo_editor (AtomRange (AtomPoint 3 0) (AtomPoint 3 1)) ''U'',
            CodeAction req]
       \<and> length (ctx_diagnostics (cap_context req)) = 3
       \<and> ctx_diagnostics (cap_context req) ! 0 =
           (demo_ls_diagnostic demo_d0)\<lparr>ls_code := Some (CodeStr ''E042'')\<rparr>
       \<and> ctx_diagnostics (cap_context req) ! 1 = demo_ls_diagnostic demo_d1
       \<and> ctx_diagnostics (cap_context req) ! 2 = demo_ls_diagnostic demo_d2)"
proof -
  from wire_diagnostics_in_input_order [OF demo_array demo_natives demo_capability,
      of demo_connection demo_linter demo_convert demo_editor demo_range]
  obtain req where
    tr: "issued demo_world (snd (getCodeActions demo_connection demo_enabled (Some demo_linter)
           demo_convert demo_editor demo_range 3 demo_world)) =
         concat (map (cache_queries demo_editor) [demo_d0, demo_d1, demo_d2]) @ [CodeAction req]"
    and len: "length (ctx_diagnostics (cap_context req)) = length [demo_d0, demo_d1, demo_d2]"
    and each: "\<forall>i<length [demo_d0, demo_d1, demo_d2].
        ctx_diagnostics (cap_context req) ! i =
          reconciled demo_linter demo_convert demo_editor ([demo_d0, demo_d1, demo_d2] ! i)"
    by blast
  have e0: "ctx_diagnostics (cap_context req) ! 0 =
              (demo_ls_diagnostic demo_d0)\<lparr>ls_code := Some (CodeStr ''E042'')\<rparr>"
    using each [rule_format, of 0] by (simp add: demo_reconciled)
  have e1: "ctx_diagnostics (cap_context req) ! 1 = demo_ls_diagnostic demo_d1"
    using each [rule_format, of 1] by (simp add: demo_reconciled)
  have e2: "ctx_diagnostics (cap_context req) ! 2 = demo_ls_diagnostic demo_d2"
    using each [rule_format, of 2] by (simp add: demo_reconciled)
  from tr len e0 e1 e2 have
    "issued demo_world (snd (getCodeActions demo_connection demo_enabled (Some demo_linter)
           demo_convert demo_editor demo_range 3 demo_world)) =
           [GetDiagnosticCode demo_editor (AtomRange (AtomPoint 1 0) (AtomPoint 1 5)) ''T'',
            GetDiagnosticCode demo_editor (AtomRange (AtomPoint 3 0) (AtomPoint 3 1)) ''U'',
            CodeAction req]
       \<and> length (ctx_diagnostics (cap_context req)) = 3
       \<and> ctx_diagnostics (cap_context req) ! 0 =
           (demo_ls_diagnostic demo_d0)\<lparr>ls_code := Some (CodeStr ''E042'')\<rparr>
       \<and> ctx_diagnostics (cap_context req) ! 1 = demo_ls_diagnostic demo_d1
       \<and> ctx_diagnostics (cap_context req) ! 2 = demo_ls_diagnostic demo_d2"
    by (simp add: demo_queries)
  then show ?thesis
    using demo_array demo_natives demo_capability by blast
qed

text \<open>
  C5. For the native diagnostic at any index of the input list: the cache queries the
  call makes are those of the diagnostics in order, and this diagnostic contributes one
  query, \<^verbatim>\<open>getDiagnosticCode(editor, range, text)\<close>, when its range and its text are both
  non-null, and none otherwise. When that query answers a code, the wire diagnostic at
  the same index carries it in \<^verbatim>\<open>code\<close>. When it answers \<^verbatim>\<open>null\<close>, or is not made,
  the wire diagnostic is the conversion untouched: the adapter sets no \<^verbatim>\<open>code\<close>, so the
  field is unset whenever the conversion leaves it unset.
\<close>

theorem diagnostic_code_reconciliation:
  assumes arr: "lookup diagnostics w = Some (Array as)"
    and nat: "map (\<lambda>a. lookup a w) as = map (\<lambda>d. Some (NativeDiagnostic d)) ds"
    and cap: "truthy (codeActionProvider caps)"
    and i: "i < length ds"
  shows "\<exists>req.
           issued w (snd (getCodeActions conn caps (Some la) conv ed rng diagnostics w)) =
             concat (map (cache_queries ed) ds) @ [CodeAction req]
         \<and> (\<forall>r t. diag_range (ds ! i) = Some r \<and> diag_text (ds ! i) = Some t \<longrightarrow>
               cache_queries ed (ds ! i) = [GetDiagnosticCode ed r t])
         \<and> (diag_range (ds ! i) = None \<or> diag_text (ds ! i) = None \<longrightarrow>
               cache_queries ed (ds ! i) = [])
         \<and> (\<forall>r t c. diag_range (ds ! i) = Some r \<and> diag_text (ds ! i) = Some t
                 \<and> la ed r t = Some c \<longrightarrow>
               ls_code (ctx_diagnostics (cap_context req) ! i) = Some c)
         \<and> (\<forall>r t. diag_range (ds ! i) = Some r \<and> diag_text (ds ! i) = Some t
                 \<and> la ed r t = None \<longrightarrow>
               ctx_diagnostics (cap_context req) ! i =
                 atomIdeDiagnosticToLSDiagnostic conv (ds ! i))
         \<and> (diag_range (ds ! i) = None \<or> diag_text (ds ! i) = None \<longrightarrow>
               ctx_diagnostics (cap_context req) ! i =
                 atomIdeDiagnosticToLSDiagnostic conv (ds ! i))
         \<and> (ls_code (atomIdeDiagnosticToLSDiagnostic conv (ds ! i)) = None
              \<and> (diag_range (ds ! i) = None \<or> diag_text (ds ! i) = None
                  \<or> (\<exists>r t. diag_range (ds ! i) = Some r \<and> diag_text (ds ! i) = Some t
                        \<and> la ed r t = None)) \<longrightarrow>
               ls_code (ctx_diagnostics (cap_context req) ! i) = None)"
proof (intro exI conjI)
  show "issued w (snd (getCodeActions conn caps (Some la) conv ed rng diagnostics w)) =
          concat (map (cache_queries ed) ds) @ [CodeAction (expected_request la conv ed rng ds)]"
    by (rule issued_run [OF arr nat cap])
qed (insert i, auto simp add: expected_request_def reconciled_def cache_queries_def
      split: option.splits)

theorem diagnostic_code_reconciliation_witness:
  "lookup 3 demo_world = Some (Array [0, 1, 2])
   \<and> map (\<lambda>a. lookup a demo_world) [0, 1, 2] =
       map (\<lambda>d. Some (NativeDiagnostic d)) [demo_d0, demo_d1, demo_d2]
   \<and> truthy (codeActionProvider demo_enabled)
   \<and> (0::nat) < length [demo_d0, demo_d1, demo_d2]
   \<and> diag_range demo_d0 = Some (AtomRange (AtomPoint 1 0) (AtomPoint 1 5))
   \<and> diag_text demo_d0 = Some ''T''
   \<and> demo_linter demo_editor (AtomRange (AtomPoint 1 0) (AtomPoint 1 5)) ''T'' =
       Some (CodeStr ''E042'')
   \<and> (\<exists>req.
         issued demo_world (snd (getCodeActions demo_connection demo_enabled (Some demo_linter)
           demo_convert demo_editor demo_range 3 demo_world)) =
           [GetDiagnosticCode demo_editor (AtomRange (AtomPoint 1 0) (AtomPoint 1 5)) ''T'',
            GetDiagnosticCode demo_editor (AtomRange (AtomPoint 3 0) (AtomPoint 3 1)) ''U'',
            CodeAction req]
       \<and> ls_code (ctx_diagnostics (cap_context req) ! 0) = Some (CodeStr ''E042''))
   \<and> diag_text demo_d1 = None
   \<and> (\<exists>req.
         issued demo_world (snd (getCodeActions demo_connection demo_enabled (Some demo_linter)
           demo_convert demo_editor demo_range 3 demo_world)) =
           [GetDiagnosticCode demo_editor (AtomRange (AtomPoint 1 0) (AtomPoint 1 5)) ''T'',
            GetDiagnosticCode demo_editor (AtomRange (AtomPoint 3 0) (AtomPoint 3 1)) ''U'',
            CodeAction req]
       \<and> ctx_diagnostics (cap_context req) ! 1 = demo_ls_diagnostic demo_d1
       \<and> ls_code (ctx_diagnostics (cap_context req) ! 1) = None)
   \<and> demo_linter demo_editor (AtomRange (AtomPoint 3 0) (AtomPoint 3 1)) ''U'' = None
   \<and> (\<exists>req.
         issued demo_world (snd (getCodeActions demo_connection demo_enabled (Some demo_linter)
           demo_convert demo_editor demo_range 3 demo_world)) =
           [GetDiagnosticCode demo_editor (AtomRange (AtomPoint 1 0) (AtomPoint 1 5)) ''T'',
            GetDiagnosticCode demo_editor (AtomRange (AtomPoint 3 0) (AtomPoint 3 1)) ''U'',
            CodeAction req]
       \<and> ctx_diagnostics (cap_context req) ! 2 = demo_ls_diagnostic demo_d2
       \<and> ls_code (ctx_diagnostics (cap_context req) ! 2) = None)"
proof -
  have r0: "diag_range demo_d0 = Some (AtomRange (AtomPoint 1 0) (AtomPoint 1 5))"
    and t0: "diag_text demo_d0 = Some ''T''"
    and t1: "diag_text demo_d1 = None"
    and r2: "diag_range demo_d2 = Some (AtomRange (AtomPoint 3 0) (AtomPoint 3 1))"
    and t2: "diag_text demo_d2 = Some ''U''"
    by (simp_all add: demo_d0_def demo_d1_def demo_d2_def)
  have c0: "demo_linter demo_editor (AtomRange (AtomPoint 1 0) (AtomPoint 1 5)) ''T'' =
              Some (CodeStr ''E042'')"
    and c2: "demo_linter demo_editor (AtomRange (AtomPoint 3 0) (AtomPoint 3 1)) ''U'' = None"
    by (simp_all add: demo_linter_def)
  have conv: "atomIdeDiagnosticToLSDiagnostic demo_convert = demo_ls_diagnostic"
    by (simp add: demo_convert_def)
  have nocode: "ls_code (demo_ls_diagnostic d) = None" for d
    by (simp add: demo_ls_diagnostic_def)
  have q: "concat (map (cache_queries demo_editor) [demo_d0, demo_d1, demo_d2]) =
     [GetDiagnosticCode demo_editor (AtomRange (AtomPoint 1 0) (AtomPoint 1 5)) ''T'',
      GetDiagnosticCode demo_editor (AtomRange (AtomPoint 3 0) (AtomPoint 3 1)) ''U'']"
    by (simp add: demo_queries)
  have i0: "(0::nat) < length [demo_d0, demo_d1, demo_d2]"
    and i1: "(1::nat) < length [demo_d0, demo_d1, demo_d2]"
    and i2: "(2::nat) < length [demo_d0, demo_d1, demo_d2]"
    by simp_all
  from diagnostic_code_reconciliation [OF demo_array demo_natives demo_capability i0,
      of demo_connection demo_linter demo_convert demo_editor demo_range]
  have w0: "\<exists>req.
         issued demo_world (snd (getCodeActions demo_connection demo_enabled (Some demo_linter)
           demo_convert demo_editor demo_range 3 demo_world)) =
           [GetDiagnosticCode demo_editor (AtomRange (AtomPoint 1 0) (AtomPoint 1 5)) ''T'',
            GetDiagnosticCode demo_editor (AtomRange (AtomPoint 3 0) (AtomPoint 3 1)) ''U'',
            CodeAction req]
       \<and> ls_code (ctx_diagnostics (cap_context req) ! 0) = Some (CodeStr ''E042'')"
    unfolding q using r0 t0 c0 by auto
  from diagnostic_code_reconciliation [OF demo_array demo_natives demo_capability i1,
      of demo_connection demo_linter demo_convert demo_editor demo_range]
  have w1: "\<exists>req.
         issued demo_world (snd (getCodeActions demo_connection demo_enabled (Some demo_linter)
           demo_convert demo_editor demo_range 3 demo_world)) =
           [GetDiagnosticCode demo_editor (AtomRange (AtomPoint 1 0) (AtomPoint 1 5)) ''T'',
            GetDiagnosticCode demo_editor (AtomRange (AtomPoint 3 0) (AtomPoint 3 1)) ''U'',
            CodeAction req]
       \<and> ctx_diagnostics (cap_context req) ! 1 = demo_ls_diagnostic demo_d1
       \<and> ls_code (ctx_diagnostics (cap_context req) ! 1) = None"
    unfolding q using t1 conv nocode by auto
  from diagnostic_code_reconciliation [OF demo_array demo_natives demo_capability i2,
      of demo_connection demo_linter demo_convert demo_editor demo_range]
  have w2: "\<exists>req.
         issued demo_world (snd (getCodeActions demo_connection demo_enabled (Some demo_linter)
           demo_convert demo_editor demo_range 3 demo_world)) =
           [GetDiagnosticCode demo_editor (AtomRange (AtomPoint 1 0) (AtomPoint 1 5)) ''T'',
            GetDiagnosticCode demo_editor (AtomRange (AtomPoint 3 0) (AtomPoint 3 1)) ''U'',
            CodeAction req]
       \<and> ctx_diagnostics (cap_context req) ! 2 = demo_ls_diagnostic demo_d2
       \<and> ls_code (ctx_diagnostics (cap_context req) ! 2) = None"
    unfolding q using r2 t2 c2 conv nocode by auto
  from demo_array demo_natives demo_capability i0 r0 t0 c0 w0 t1 w1 c2 w2
  show ?thesis by blast
qed

subsection \<open>The actions\<close>

text \<open>
  C6. When the connection answers the request with a list of commands, the call resolves
  to a list of actions of the same length, and for every index \<open>i\<close> the method
  \<^verbatim>\<open>getTitle()\<close> of the \<open>i\<close>-th action resolves to the title of the \<open>i\<close>-th command,
  in any world and without changing it.
\<close>

theorem actions_follow_response_order:
  assumes arr: "lookup diagnostics w = Some (Array as)"
    and nat: "map (\<lambda>a. lookup a w) as = map (\<lambda>d. Some (NativeDiagnostic d)) ds"
    and cap: "truthy (codeActionProvider caps)"
    and resp: "codeAction_response conn (trace w @ concat (map (cache_queries ed) ds))
                 (expected_request la conv ed rng ds) = Inr commands"
  shows "\<exists>actions.
           fst (getCodeActions conn caps (Some la) conv ed rng diagnostics w) = Inr actions
         \<and> length actions = length commands
         \<and> (\<forall>i<length commands. \<forall>v.
               getTitle (actions ! i) v = (Inr (cmd_title (commands ! i)), v))"
proof (intro exI conjI)
  show "fst (getCodeActions conn caps (Some la) conv ed rng diagnostics w) =
          Inr (map (make_action conn) commands)"
    by (rule getCodeActions_answer [OF arr nat cap resp])
qed (simp_all add: make_action_def)

theorem actions_follow_response_order_witness:
  "lookup 3 demo_world = Some (Array [0, 1, 2])
   \<and> map (\<lambda>a. lookup a demo_world) [0, 1, 2] =
       map (\<lambda>d. Some (NativeDiagnostic d)) [demo_d0, demo_d1, demo_d2]
   \<and> truthy (codeActionProvider demo_enabled)
   \<and> codeAction_response demo_connection
        (trace demo_world @ concat (map (cache_queries demo_editor) [demo_d0, demo_d1, demo_d2]))
        (expected_request demo_linter demo_convert demo_editor demo_range
          [demo_d0, demo_d1, demo_d2]) =
       Inr [demo_fix_a, demo_fix_b]
   \<and> (\<exists>actions.
         fst (getCodeActions demo_connection demo_enabled (Some demo_linter) demo_convert
           demo_editor demo_range 3 demo_world) = Inr actions
       \<and> length actions = 2
       \<and> getTitle (actions ! 0) demo_world = (Inr ''Fix A'', demo_world)
       \<and> getTitle (actions ! 1) demo_world = (Inr ''Fix B'', demo_world))"
proof -
  from actions_follow_response_order [OF demo_array demo_natives demo_capability
      demo_response, of demo_linter demo_convert demo_editor demo_range]
  obtain actions where
    res: "fst (getCodeActions demo_connection demo_enabled (Some demo_linter) demo_convert
           demo_editor demo_range 3 demo_world) = Inr actions"
    and len: "length actions = length [demo_fix_a, demo_fix_b]"
    and each: "\<forall>i<length [demo_fix_a, demo_fix_b]. \<forall>v.
        getTitle (actions ! i) v = (Inr (cmd_title ([demo_fix_a, demo_fix_b] ! i)), v)"
    by blast
  have t0: "getTitle (actions ! 0) demo_world = (Inr ''Fix A'', demo_world)"
    using each [rule_format, of 0 demo_world] by (simp add: demo_fix_a_def)
  have t1: "getTitle (actions ! 1) demo_world = (Inr ''Fix B'', demo_world)"
    using each [rule_format, of 1 demo_world] by (simp add: demo_fix_b_def)
  from len have len2: "length actions = 2" by simp
  from demo_array demo_natives demo_capability demo_response res len2 t0 t1
  show ?thesis by blast
qed

text \<open>
  C7. Let the connection answer the request with a list of commands, and take the
  action at any index \<open>i\<close> of the result. In every world \<open>v\<close> (so also after any number
  of earlier calls), one call of \<^verbatim>\<open>apply()\<close> issues exactly one call on the
  collaborators, the request \<^verbatim>\<open>executeCommand\<close> with the name and the arguments of the
  \<open>i\<close>-th command as they are, and touches no object of the store; \<open>n\<close> calls in a row
  issue exactly \<open>n\<close> such requests.
\<close>

theorem invoke_issues_one_executeCommand:
  assumes arr: "lookup diagnostics w = Some (Array as)"
    and nat: "map (\<lambda>a. lookup a w) as = map (\<lambda>d. Some (NativeDiagnostic d)) ds"
    and cap: "truthy (codeActionProvider caps)"
    and resp: "codeAction_response conn (trace w @ concat (map (cache_queries ed) ds))
                 (expected_request la conv ed rng ds) = Inr commands"
    and i: "i < length commands"
  shows "\<exists>actions.
           fst (getCodeActions conn caps (Some la) conv ed rng diagnostics w) = Inr actions
         \<and> (\<forall>v. issued v (snd (apply_action (actions ! i) v)) =
                  [ExecuteCommand \<lparr>ecp_command = cmd_command (commands ! i),
                                   ecp_arguments = cmd_arguments (commands ! i)\<rparr>]
               \<and> store (snd (apply_action (actions ! i) v)) = store v)
         \<and> (\<forall>n v. issued v (invoke_times n (actions ! i) v) =
                  replicate n
                    (ExecuteCommand \<lparr>ecp_command = cmd_command (commands ! i),
                                     ecp_arguments = cmd_arguments (commands ! i)\<rparr>))"
proof (intro exI conjI)
  show "fst (getCodeActions conn caps (Some la) conv ed rng diagnostics w) =
          Inr (map (make_action conn) commands)"
    by (rule getCodeActions_answer [OF arr nat cap resp])
qed (simp_all add: i apply_make_action invoke_times_make_action issued_def)

theorem invoke_issues_one_executeCommand_witness:
  "lookup 3 demo_world = Some (Array [0, 1, 2])
   \<and> map (\<lambda>a. lookup a demo_world) [0, 1, 2] =
       map (\<lambda>d. Some (NativeDiagnostic d)) [demo_d0, demo_d1, demo_d2]
   \<and> truthy (codeActionProvider demo_enabled)
   \<and> codeAction_response demo_connection
        (trace demo_world @ concat (map (cache_queries demo_editor) [demo_d0, demo_d1, demo_d2]))
        (expected_request demo_linter demo_convert demo_editor demo_range
          [demo_d0, demo_d1, demo_d2]) =
       Inr [demo_fix_a, demo_fix_b]
   \<and> (0::nat) < length [demo_fix_a, demo_fix_b]
   \<and> (\<exists>actions.
         fst (getCodeActions demo_connection demo_enabled (Some demo_linter) demo_convert
           demo_editor demo_range 3 demo_world) = Inr actions
       \<and> issued demo_world (snd (apply_action (actions ! 0) demo_world)) =
           [ExecuteCommand \<lparr>ecp_command = ''fix.a'', ecp_arguments = Some [JNum 1]\<rparr>]
       \<and> issued demo_world (invoke_times 3 (actions ! 0) demo_world) =
           [ExecuteCommand \<lparr>ecp_command = ''fix.a'', ecp_arguments = Some [JNum 1]\<rparr>,
            ExecuteCommand \<lparr>ecp_command = ''fix.a'', ecp_arguments = Some [JNum 1]\<rparr>,
            ExecuteCommand \<lparr>ecp_command = ''fix.a'', ecp_arguments = Some [JNum 1]\<rparr>])"
proof -
  have i0: "(0::nat) < length [demo_fix_a, demo_fix_b]"
    by simp
  from invoke_issues_one_executeCommand [OF demo_array demo_natives demo_capability
      demo_response i0, of demo_linter demo_convert demo_editor demo_range]
  obtain actions where
    res: "fst (getCodeActions demo_connection demo_enabled (Some demo_linter) demo_convert
           demo_editor demo_range 3 demo_world) = Inr actions"
    and one: "\<forall>v. issued v (snd (apply_action (actions ! 0) v)) =
                  [ExecuteCommand \<lparr>ecp_command = cmd_command ([demo_fix_a, demo_fix_b] ! 0),
                                   ecp_arguments = cmd_arguments ([demo_fix_a, demo_fix_b] ! 0)\<rparr>]
               \<and> store (snd (apply_action (actions ! 0) v)) = store v"
    and many: "\<forall>n v. issued v (invoke_times n (actions ! 0) v) =
                  replicate n
                    (ExecuteCommand \<lparr>ecp_command = cmd_command ([demo_fix_a, demo_fix_b] ! 0),
                                     ecp_arguments = cmd_arguments ([demo_fix_a, demo_fix_b] ! 0)\<rparr>)"
    by blast
  have a1: "issued demo_world (snd (apply_action (actions ! 0) demo_world)) =
           [ExecuteCommand \<lparr>ecp_command = ''fix.a'', ecp_arguments = Some [JNum 1]\<rparr>]"
    using one [rule_format, of demo_world] by (simp add: demo_fix_a_def)
  have r3: "replicate 3 x = [x, x, x]" for x :: event
    by (simp add: numeral_3_eq_3)
  have a3: "issued demo_world (invoke_times 3 (actions ! 0) demo_world) =
           [ExecuteCommand \<lparr>ecp_command = ''fix.a'', ecp_arguments = Some [JNum 1]\<rparr>,
            ExecuteCommand \<lparr>ecp_command = ''fix.a'', ecp_arguments = Some [JNum 1]\<rparr>,
            ExecuteCommand \<lparr>ecp_command = ''fix.a'', ecp_arguments = Some [JNum 1]\<rparr>]"
    using many [rule_format, where n = 3 and v = demo_world] by (simp add: demo_fix_a_def r3)
  from demo_array demo_natives demo_capability demo_response i0 res a1 a3
  show ?thesis by blast
qed

text \<open>
  C8. For every action that \<^verbatim>\<open>getCodeActions\<close> returns, \<^verbatim>\<open>dispose()\<close> returns normally
  and leaves the world as it found it, in every world; \<^verbatim>\<open>apply()\<close> and \<^verbatim>\<open>getTitle()\<close>
  called after it do what they do without it.
\<close>

theorem dispose_is_noop:
  assumes res: "fst (getCodeActions conn caps la conv ed rng diagnostics w) = Inr actions"
    and a: "a \<in> set actions"
  shows "dispose a v = (Inr (), v)
         \<and> apply_action a (snd (dispose a v)) = apply_action a v
         \<and> getTitle a (snd (dispose a v)) = getTitle a v"
proof -
  from getCodeActions_actions [OF res] a obtain c where "a = make_action conn c"
    by auto
  then show ?thesis
    by (simp add: make_action_def)
qed

theorem dispose_is_noop_witness:
  "fst (getCodeActions demo_connection demo_enabled (Some demo_linter) demo_convert
     demo_editor demo_range 3 demo_world) =
     Inr [make_action demo_connection demo_fix_a, make_action demo_connection demo_fix_b]
   \<and> make_action demo_connection demo_fix_b \<in>
       set [make_action demo_connection demo_fix_a, make_action demo_connection demo_fix_b]
   \<and> dispose (make_action demo_connection demo_fix_b) demo_world = (Inr (), demo_world)
   \<and> apply_action (make_action demo_connection demo_fix_b)
        (snd (dispose (make_action demo_connection demo_fix_b) demo_world)) =
       apply_action (make_action demo_connection demo_fix_b) demo_world
   \<and> getTitle (make_action demo_connection demo_fix_b)
        (snd (dispose (make_action demo_connection demo_fix_b) demo_world)) =
       getTitle (make_action demo_connection demo_fix_b) demo_world"
proof -
  have res: "fst (getCodeActions demo_connection demo_enabled (Some demo_linter) demo_convert
     demo_editor demo_range 3 demo_world) =
     Inr [make_action demo_connection demo_fix_a, make_action demo_connection demo_fix_b]"
    by (simp add: getCodeActions_answer [OF demo_array demo_natives demo_capability
          demo_response])
  have mem: "make_action demo_connection demo_fix_b \<in>
       set [make_action demo_connection demo_fix_a, make_action demo_connection demo_fix_b]"
    by simp
  from dispose_is_noop [OF res mem, of demo_world] res mem
  show ?thesis by blast
qed

subsection \<open>The inputs are left as they are\<close>

text \<open>
  The store can tell where an assignment lands. \<^verbatim>\<open>x.code = c\<close> through a reference to a
  native diagnostic gives that object the property, and the store before the write is
  then no longer an initial part of the store after it: had the adapter assigned through
  \<^verbatim>\<open>diagnostic\<close> instead of \<^verbatim>\<open>converted\<close>, the frame property below would fail.
\<close>

lemma set_code_at:
  "a < length (store w) \<Longrightarrow> store (set_code a c w) ! a = assign_code c (store w ! a)"
  by (simp add: set_code_def)

lemma set_code_onto_native:
  assumes "lookup a w = Some (NativeDiagnostic d)"
  shows "cell_code (store (set_code a c w) ! a) = Some c"
  using assms by (simp add: set_code_def lookup_def assign_code_def split: if_splits)

lemma set_code_onto_native_breaks_frame:
  assumes n: "lookup a w = Some (NativeDiagnostic d)"
    and c: "cell_code (store w ! a) = None"
  shows "\<not> prefix (store w) (store (set_code a c' w))"
proof
  assume "prefix (store w) (store (set_code a c' w))"
  then obtain zs where zs: "store (set_code a c' w) = store w @ zs"
    by (auto simp add: prefix_def)
  have a: "a < length (store w)"
    using n by (simp add: lookup_def split: if_splits)
  then have "store (set_code a c' w) ! a = store w ! a"
    by (simp add: zs nth_append)
  with set_code_onto_native [OF n, of c'] c show False
    by simp
qed

text \<open>
  C10. Take any call on a list of native diagnostics, with or without a linter adapter,
  whatever the capabilities are and whatever the connection answers. The store after the
  call begins with the store before it, cell by cell: every object that existed before
  the call is the same afterwards and has been given no property. In particular the cell
  of the input array is unchanged (same elements, same order), and so is the cell of each
  native diagnostic in it: the reconciled code is never written onto a native
  diagnostic. The writes of the call go to cells that did not exist before it.
\<close>

theorem getCodeActions_leaves_inputs_unchanged:
  assumes arr: "lookup diagnostics w = Some (Array as)"
    and nat: "map (\<lambda>a. lookup a w) as = map (\<lambda>d. Some (NativeDiagnostic d)) ds"
  shows "prefix (store w) (store (snd (getCodeActions conn caps la conv ed rng diagnostics w)))
   \<and> (\<forall>a<length (store w).
         store (snd (getCodeActions conn caps la conv ed rng diagnostics w)) ! a = store w ! a)
   \<and> diagnostics < length (store w)
   \<and> store (snd (getCodeActions conn caps la conv ed rng diagnostics w)) ! diagnostics =
       store w ! diagnostics
   \<and> lookup diagnostics (snd (getCodeActions conn caps la conv ed rng diagnostics w)) =
       Some (Array as)
   \<and> (\<forall>a\<in>set as. a < length (store w)
         \<and> store (snd (getCodeActions conn caps la conv ed rng diagnostics w)) ! a = store w ! a)
   \<and> map (\<lambda>a. lookup a (snd (getCodeActions conn caps la conv ed rng diagnostics w))) as =
       map (\<lambda>d. Some (NativeDiagnostic d)) ds"
proof -
  let ?w' = "snd (getCodeActions conn caps la conv ed rng diagnostics w)"
  have p: "prefix (store w) (store ?w')"
  proof (cases la)
    case None
    then show ?thesis by (simp add: getCodeActions_def)
  next
    case (Some l)
    have m: "prefix (store w)
               (store (snd (array_map (convert_diagnostic l conv ed) diagnostics w)))"
      by (rule array_map_frame) (rule convert_diagnostic_frame)
    show ?thesis
    proof (cases "array_map (convert_diagnostic l conv ed) diagnostics w")
      case (Pair r w1)
      with m Some show ?thesis
        by (cases r)
          (simp_all add: getCodeActions_def invariant_def codeAction_def emit_def
            split: option.splits sum.splits)
    qed
  qed
  then obtain zs where zs: "store ?w' = store w @ zs"
    by (auto simp add: prefix_def)
  have same: "store ?w' ! a = store w ! a" if "a < length (store w)" for a
    using that by (simp add: zs nth_append)
  have kept: "lookup a ?w' = lookup a w" if "a < length (store w)" for a
    using that by (simp add: lookup_def zs nth_append)
  have d: "diagnostics < length (store w)"
    using arr by (simp add: lookup_def split: if_splits)
  have el: "a < length (store w)" if "a \<in> set as" for a
  proof -
    from that have "lookup a w \<in> set (map (\<lambda>a. lookup a w) as)"
      by simp
    then have "lookup a w \<in> set (map (\<lambda>d. Some (NativeDiagnostic d)) ds)"
      by (simp only: nat)
    then obtain x where "lookup a w = Some x"
      by auto
    then show ?thesis
      by (simp add: lookup_def split: if_splits)
  qed
  have "map (\<lambda>a. lookup a ?w') as = map (\<lambda>a. lookup a w) as"
    by (rule map_cong [OF refl]) (simp add: kept el)
  then have els: "map (\<lambda>a. lookup a ?w') as = map (\<lambda>d. Some (NativeDiagnostic d)) ds"
    by (simp only: nat)
  from p same d kept [OF d] arr el els show ?thesis
    by simp
qed

theorem getCodeActions_leaves_inputs_unchanged_witness:
  "lookup 3 demo_world = Some (Array [0, 1, 2])
   \<and> map (\<lambda>a. lookup a demo_world) [0, 1, 2] =
       map (\<lambda>d. Some (NativeDiagnostic d)) [demo_d0, demo_d1, demo_d2]
   \<and> store (snd (getCodeActions demo_connection demo_enabled (Some demo_linter)
        demo_convert demo_editor demo_range 3 demo_world)) ! 3 =
       \<lparr>cell_obj = Array [0, 1, 2], cell_code = None\<rparr>
   \<and> store (snd (getCodeActions demo_connection demo_enabled (Some demo_linter)
        demo_convert demo_editor demo_range 3 demo_world)) ! 0 =
       \<lparr>cell_obj = NativeDiagnostic demo_d0, cell_code = None\<rparr>
   \<and> lookup 4 demo_world = None
   \<and> store (snd (getCodeActions demo_connection demo_enabled (Some demo_linter)
        demo_convert demo_editor demo_range 3 demo_world)) ! 4 =
       \<lparr>cell_obj = LSDiagnostic
          ((demo_ls_diagnostic demo_d0)\<lparr>ls_code := Some (CodeStr ''E042'')\<rparr>),
        cell_code = None\<rparr>"
proof -
  let ?w' = "snd (getCodeActions demo_connection demo_enabled (Some demo_linter)
        demo_convert demo_editor demo_range 3 demo_world)"
  from getCodeActions_leaves_inputs_unchanged [OF demo_array demo_natives,
      of demo_connection demo_enabled "Some demo_linter" demo_convert demo_editor demo_range]
  have arr_cell: "store ?w' ! 3 = store demo_world ! 3"
    and elems: "\<forall>a\<in>set [0, 1, 2]. a < length (store demo_world)
                  \<and> store ?w' ! a = store demo_world ! a"
    by blast+
  have c3: "store ?w' ! 3 = \<lparr>cell_obj = Array [0, 1, 2], cell_code = None\<rparr>"
    using arr_cell by (simp add: demo_world_def new_cell_def)
  have c0: "store ?w' ! 0 = \<lparr>cell_obj = NativeDiagnostic demo_d0, cell_code = None\<rparr>"
    using elems by (simp add: demo_world_def new_cell_def)
  have n4: "lookup 4 demo_world = None"
    by (simp add: lookup_def demo_world_def)
  have c4: "store ?w' ! 4 =
       \<lparr>cell_obj = LSDiagnostic
          ((demo_ls_diagnostic demo_d0)\<lparr>ls_code := Some (CodeStr ''E042'')\<rparr>),
        cell_code = None\<rparr>"
  proof -
    have "store ?w' =
            store demo_world
            @ map (\<lambda>d. new_cell (LSDiagnostic (reconciled demo_linter demo_convert demo_editor d)))
                [demo_d0, demo_d1, demo_d2]
            @ [new_cell (Array [length (store demo_world) ..<
                 length (store demo_world) + length [0, 1, 2 :: nat]])]"
      by (simp add: getCodeActions_run [OF demo_array demo_natives demo_capability])
    then show ?thesis
      by (simp add: demo_world_def demo_reconciled new_cell_def)
  qed
  from demo_array demo_natives c3 c0 n4 c4 show ?thesis
    by blast
qed

end
